theory Spec2Isabelle
  imports Complex_Main "HOL-Library.Sublist"
begin

section \<open>Values of the JavaScript runtime\<close>

text \<open>
  The server of \<^verbatim>\<open>src/index.js\<close> talks to two remote hosts and to the clock. What the
  hosts answer, what the clock reads and what the built-in functions \<^verbatim>\<open>JSON.parse\<close>,
  \<^verbatim>\<open>parseInt\<close> and \<^verbatim>\<open>Math.random\<close> return are inputs of the model; everything the file
  itself computes is a definition below, under the name it has in the source. A promise is
  modelled by how it settles: \<open>Inr\<close> is the value it resolves with, \<open>Inl\<close> the error it
  rejects with, and where a promise may stay pending for ever the result is an option, with
  \<open>None\<close> for the promise that never settles. Logging and the HTTP responses of the server
  itself are left out.
\<close>

datatype js_number = Num real | PosInfinity | NegInfinity | NaN

text \<open>
  A value as \<^verbatim>\<open>JSON.parse\<close> or the body parser produces it. An object is the list of its own
  properties, each key once; \<open>JUndefined\<close> is the value of a property that is not there.
\<close>

datatype json =
    JUndefined
  | JNull
  | JBool bool
  | JNum js_number
  | JStr string
  | JArr "json list"
  | JObj "(string \<times> json) list"

text \<open>Truthiness, as the operators \<^verbatim>\<open>||\<close> and \<^verbatim>\<open>!\<close> read it.\<close>

fun truthy :: "json \<Rightarrow> bool" where
  "truthy JUndefined = False"
| "truthy JNull = False"
| "truthy (JBool b) = b"
| "truthy (JNum (Num r)) = (r \<noteq> 0)"
| "truthy (JNum NaN) = False"
| "truthy (JNum PosInfinity) = True"
| "truthy (JNum NegInfinity) = True"
| "truthy (JStr s) = (s \<noteq> [])"
| "truthy (JArr xs) = True"
| "truthy (JObj ps) = True"

text \<open>\<^verbatim>\<open>a || b\<close>\<close>

definition js_or :: "json \<Rightarrow> json \<Rightarrow> json" where
  "js_or a b = (if truthy a then a else b)"

text \<open>\<^verbatim>\<open>v == null\<close>: true of \<^verbatim>\<open>null\<close> and of \<^verbatim>\<open>undefined\<close> only.\<close>

definition loosely_null :: "json \<Rightarrow> bool" where
  "loosely_null v = (v = JNull \<or> v = JUndefined)"

text \<open>
  An \<^verbatim>\<open>Error\<close> object with the properties this file reads or sets; \<open>None\<close> is a property
  that is not set.
\<close>

record js_error =
  message :: string
  statusCode :: "int option"
  code :: "string option"
  body :: "string option"

text \<open>\<^verbatim>\<open>new Error(msg)\<close>\<close>

definition new_Error :: "string \<Rightarrow> js_error" where
  "new_Error msg = \<lparr>message = msg, statusCode = None, code = None, body = None\<rparr>"

text \<open>The built-in functions the file calls on data it received.\<close>

record builtins =
  JSON_parse :: "string \<Rightarrow> json option"  \<comment> \<open>\<open>None\<close>: \<^verbatim>\<open>JSON.parse\<close> throws\<close>
  parseInt10 :: "string \<Rightarrow> js_number"    \<comment> \<open>\<^verbatim>\<open>parseInt(s, 10)\<close>\<close>

subsection \<open>Integers in template literals\<close>

definition digit_chars :: string where
  "digit_chars = ''0123456789''"

fun dec_nat :: "nat \<Rightarrow> string" where
  "dec_nat n = (if n < 10 then [digit_chars ! n] else dec_nat (n div 10) @ [digit_chars ! (n mod 10)])"

declare dec_nat.simps [simp del]

text \<open>\<^verbatim>\<open>`${n}`\<close> for an integer \<open>n\<close> (status codes, clock readings).\<close>

definition dec_int :: "int \<Rightarrow> string" where
  "dec_int i = (if i < 0 then CHR ''-'' # dec_nat (nat (- i)) else dec_nat (nat i))"

section \<open>One relay attempt\<close>

text \<open>\<^verbatim>\<open>{ statusCode: 201, videoId, rawResponse }\<close>\<close>

record upload_result =
  res_statusCode :: int
  videoId :: json
  rawResponse :: "string option"

text \<open>
  What the two hosts do in one attempt: the first event that settles the promise of
  \<^verbatim>\<open>attemptStreamUpload\<close>, or what keeps it from ever settling. The PUT request is built
  inside the callback of the GET response, outside the executor of the promise: when
  \<^verbatim>\<open>new URL(uploadUrl)\<close> or \<^verbatim>\<open>uploadModule.request\<close> throws there (an upload URL that does not
  parse or is not http, a header value that is not valid), the exception is not turned into
  a rejection and neither \<^verbatim>\<open>resolve\<close> nor \<^verbatim>\<open>reject\<close> is ever called (the file installs no
  handler for uncaught exceptions, so the process may end there; either way the job is never
  written again). The PUT request has no timeout either, so a destination that never answers
  leaves the promise pending as well.
\<close>

datatype put_event =
    PutResponse int string  \<comment> \<open>\<^verbatim>\<open>'end'\<close> of the response: status code, collected body\<close>
  | PutError js_error       \<comment> \<open>\<^verbatim>\<open>'error'\<close> on the PUT request\<close>
  | PipelineError js_error  \<comment> \<open>the pipeline from the download to the PUT rejects\<close>
  | PutThrows               \<comment> \<open>building the PUT request throws inside the callback\<close>
  | PutNoAnswer             \<comment> \<open>the upload is sent and no response or error ever comes\<close>

datatype attempt_event =
    GetError js_error           \<comment> \<open>\<^verbatim>\<open>'error'\<close> on the GET request, or \<^verbatim>\<open>new URL\<close> throws\<close>
  | GetTimeout                  \<comment> \<open>60 s without activity, before the response\<close>
  | GetResponse int put_event   \<comment> \<open>the source answers with this status code\<close>

text \<open>\<^verbatim>\<open>json.id\<close>, which throws when \<open>json\<close> is \<^verbatim>\<open>null\<close> (\<open>None\<close>).\<close>

fun get_id :: "json \<Rightarrow> json option" where
  "get_id JNull = None"
| "get_id JUndefined = None"
| "get_id (JObj ps) = Some (case map_of ps ''id'' of None \<Rightarrow> JUndefined | Some v \<Rightarrow> v)"
| "get_id v = Some JUndefined"

text \<open>
  The \<^verbatim>\<open>try\<close> block of the 201 branch: \<^verbatim>\<open>videoId\<close> starts as \<^verbatim>\<open>null\<close> and stays so when
  \<^verbatim>\<open>JSON.parse\<close> or the property access throws.
\<close>

definition parse_videoId :: "builtins \<Rightarrow> string \<Rightarrow> json" where
  "parse_videoId B b =
     (case JSON_parse B b of
        None \<Rightarrow> JNull
      | Some json \<Rightarrow> (case get_id json of None \<Rightarrow> JNull | Some v \<Rightarrow> js_or v JNull))"

definition on_put_end :: "builtins \<Rightarrow> int \<Rightarrow> string \<Rightarrow> js_error + upload_result" where
  "on_put_end B st b =
     (if st = 201 then
        Inr \<lparr>res_statusCode = 201, videoId = parse_videoId B b,
             rawResponse = (if length b > 0 then Some b else None)\<rparr>
      else if st = 308 then
        Inl ((new_Error ''Upload incomplete (308), will retry'')\<lparr>statusCode := Some 308\<rparr>)
      else
        Inl ((new_Error (''YouTube upload failed: HTTP '' @ dec_int st @ '' - '' @ b))
               \<lparr>statusCode := Some st, body := Some b\<rparr>))"

definition attemptStreamUpload ::
  "builtins \<Rightarrow> attempt_event \<Rightarrow> (js_error + upload_result) option" where
  "attemptStreamUpload B ev =
     (case ev of
        GetError err \<Rightarrow> Some (Inl err)
      | GetTimeout \<Rightarrow> Some (Inl (new_Error ''Download timeout''))
      | GetResponse gst pe \<Rightarrow>
          if gst \<ge> 400
          then Some (Inl (new_Error (''Failed to download video: HTTP '' @ dec_int gst)))
          else (case pe of
                  PutResponse st b \<Rightarrow> Some (on_put_end B st b)
                | PutError err \<Rightarrow> Some (Inl err)
                | PipelineError err \<Rightarrow> Some (Inl err)
                | PutThrows \<Rightarrow> None
                | PutNoAnswer \<Rightarrow> None))"

section \<open>The retry loop\<close>

definition maxRetries :: nat where
  "maxRetries = 3"

text \<open>
  \<^verbatim>\<open>err.statusCode >= 500 || err.statusCode === 308 || err.code === 'ECONNRESET' ||
  err.code === 'ETIMEDOUT'\<close>; a comparison with \<^verbatim>\<open>undefined\<close> is false.
\<close>

definition isRetryable :: "js_error \<Rightarrow> bool" where
  "isRetryable err =
     ((case statusCode err of None \<Rightarrow> False | Some s \<Rightarrow> s \<ge> 500)
      \<or> statusCode err = Some 308
      \<or> code err = Some ''ECONNRESET''
      \<or> code err = Some ''ETIMEDOUT'')"

text \<open>\<^verbatim>\<open>Math.min(1000 * Math.pow(2, attempt), 10000)\<close>, in milliseconds.\<close>

definition backoff_delay :: "nat \<Rightarrow> int" where
  "backoff_delay attempt = min (1000 * 2 ^ attempt) 10000"

text \<open>The parameters of a transfer, as \<^verbatim>\<open>runUpload\<close> passes them on.\<close>

record transfer =
  t_videoUrl :: json
  t_uploadUrl :: json
  t_oauthToken :: json
  t_contentType :: json
  t_contentLength :: json

text \<open>What the loop does, in order: relay attempts with their outcome, and sleeps.\<close>

datatype relay_step =
    Attempt nat "(js_error + upload_result) option"
  | Sleep int

text \<open>
  The loop of \<^verbatim>\<open>streamVideoToYouTube\<close> from the iteration numbered \<open>attempt\<close> on. \<open>net\<close> is
  what the hosts do in the attempt of a given number for given parameters. The result is
  the value returned (\<open>Inr\<close>) or thrown (\<open>Inl\<close>; there \<open>None\<close> is \<^verbatim>\<open>undefined\<close>, the initial
  value of \<^verbatim>\<open>lastError\<close>), or \<open>None\<close> when the loop waits for ever on an attempt that never
  settles, and the steps taken.
\<close>

function retry_loop ::
  "builtins \<Rightarrow> (nat \<Rightarrow> transfer \<Rightarrow> attempt_event) \<Rightarrow> transfer \<Rightarrow> nat \<Rightarrow> js_error option
     \<Rightarrow> (js_error option + upload_result) option \<times> relay_step list" where
  "retry_loop B net t attempt lastError =
     (if attempt \<le> maxRetries then
        (case attemptStreamUpload B (net attempt t) of
           None \<Rightarrow> (None, [Attempt attempt None])
         | Some (Inr result) \<Rightarrow> (Some (Inr result), [Attempt attempt (Some (Inr result))])
         | Some (Inl err) \<Rightarrow>
             if \<not> isRetryable err \<or> attempt = maxRetries
             then (Some (Inl (Some err)), [Attempt attempt (Some (Inl err))])
             else
               (let (out, steps) = retry_loop B net t (attempt + 1) (Some err)
                in (out,
                    Attempt attempt (Some (Inl err)) # Sleep (backoff_delay attempt) # steps)))
      else (Some (Inl lastError), []))"
  by pat_completeness auto
termination
  by (relation "measure (\<lambda>(B, net, t, attempt, lastError). maxRetries + 1 - attempt)") auto

declare retry_loop.simps [simp del]

definition streamVideoToYouTube ::
  "builtins \<Rightarrow> (nat \<Rightarrow> transfer \<Rightarrow> attempt_event) \<Rightarrow> transfer
     \<Rightarrow> (js_error option + upload_result) option \<times> relay_step list" where
  "streamVideoToYouTube B net t = retry_loop B net t 1 None"

section \<open>Content length of the source\<close>

text \<open>What the source does with the \<^verbatim>\<open>HEAD\<close> request: the first event that settles the promise.\<close>

datatype probe_event =
    ProbeResponse "string option"  \<comment> \<open>a response; its \<^verbatim>\<open>content-length\<close> header, if it has one\<close>
  | ProbeError js_error            \<comment> \<open>\<^verbatim>\<open>'error'\<close> on the request, or \<^verbatim>\<open>new URL\<close> throws\<close>
  | ProbeTimeout                   \<comment> \<open>15 s without activity\<close>

definition size_unavailable :: string where
  "size_unavailable =
     ''Source URL does not provide Content-Length. Pass contentLength in the request body.''"

definition getContentLength :: "builtins \<Rightarrow> probe_event \<Rightarrow> js_error + js_number" where
  "getContentLength B pe =
     (case pe of
        ProbeResponse len \<Rightarrow>
          (case len of
             Some l \<Rightarrow> Inr (parseInt10 B l)
           | None \<Rightarrow> Inl (new_Error size_unavailable))
      | ProbeError err \<Rightarrow> Inl err
      | ProbeTimeout \<Rightarrow> Inl (new_Error ''HEAD request timeout''))"

section \<open>Jobs\<close>

datatype job_status = pending | downloading | uploading | completed | failed

text \<open>\<^verbatim>\<open>{ message: err.message, code: err.code }\<close>\<close>

record error_info =
  err_message :: string
  err_code :: "string option"

text \<open>
  The job object. \<open>createdAt\<close> and \<open>completedAt\<close> are the instants, in milliseconds since the
  epoch, that the ISO strings of the source denote; \<open>None\<close> is \<^verbatim>\<open>null\<close> for \<open>result\<close> and
  \<open>error\<close>, and a property not yet set for \<open>completedAt\<close>.
\<close>

record job =
  job_id :: string
  status :: job_status
  createdAt :: int
  videoUrl :: json
  videoMetadata :: json
  result :: "upload_result option"
  error :: "error_info option"
  completedAt :: "int option"

text \<open>The body of a \<^verbatim>\<open>POST /upload\<close> request; a property that is absent is \<open>JUndefined\<close>.\<close>

record upload_request =
  req_videoUrl :: json
  req_uploadUrl :: json
  req_oauthToken :: json
  req_videoMetadata :: json
  req_contentLength :: json
  req_contentType :: json
  req_sync :: json

text \<open>The default of a destructured property applies to \<^verbatim>\<open>undefined\<close> only.\<close>

definition with_default :: "json \<Rightarrow> json \<Rightarrow> json" where
  "with_default v d = (if v = JUndefined then d else v)"

text \<open>\<^verbatim>\<open>s.slice(b, e)\<close> for indices that are not negative.\<close>

definition slice :: "nat \<Rightarrow> nat \<Rightarrow> string \<Rightarrow> string" where
  "slice b e s = drop b (take e s)"

text \<open>
  \<^verbatim>\<open>`job_${Date.now()}_${Math.random().toString(36).slice(2, 9)}`\<close>: \<open>now\<close> is the reading of
  \<^verbatim>\<open>Date.now()\<close> and \<open>rnd36\<close> the string \<^verbatim>\<open>Math.random().toString(36)\<close>.
\<close>

definition jobId :: "int \<Rightarrow> string \<Rightarrow> string" where
  "jobId now rnd36 = ''job_'' @ dec_int now @ ''_'' @ slice 2 9 rnd36"

text \<open>
  The job store: a \<^verbatim>\<open>Map\<close>, as the list of its entries in insertion order. \<^verbatim>\<open>set\<close> on a key
  that is there replaces the value in place; on a new key it adds the entry at the end.
\<close>

type_synonym job_store = "(string \<times> job) list"

fun store_set :: "string \<Rightarrow> job \<Rightarrow> job_store \<Rightarrow> job_store" where
  "store_set k v [] = [(k, v)]"
| "store_set k v ((k', v') # es) =
     (if k' = k then (k, v) # es else (k', v') # store_set k v es)"

definition store_delete :: "string \<Rightarrow> job_store \<Rightarrow> job_store" where
  "store_delete k es = filter (\<lambda>e. fst e \<noteq> k) es"

text \<open>
  The handler of \<^verbatim>\<open>POST /upload\<close> up to \<^verbatim>\<open>jobs.set\<close>: \<open>None\<close> is the 400 response, after which
  nothing else happens. \<open>created\<close> is the clock reading that \<open>createdAt\<close> records.
\<close>

definition accept_upload ::
  "int \<Rightarrow> string \<Rightarrow> int \<Rightarrow> upload_request \<Rightarrow> job_store \<Rightarrow> (job \<times> job_store) option" where
  "accept_upload now rnd36 created req jobs =
     (if \<not> truthy (req_videoUrl req) \<or> \<not> truthy (req_uploadUrl req) \<or> \<not> truthy (req_oauthToken req)
      then None
      else
        (let job = \<lparr>job_id = jobId now rnd36, status = pending, createdAt = created,
                     videoUrl = req_videoUrl req,
                     videoMetadata = js_or (req_videoMetadata req) JNull,
                     result = None, error = None, completedAt = None\<rparr>
         in Some (job, store_set (jobId now rnd36) job jobs)))"

text \<open>
  The world around one run of \<^verbatim>\<open>runUpload\<close>: what the source does with the \<^verbatim>\<open>HEAD\<close> request
  for a URL, what the hosts do in each relay attempt, and the clock reading when the run
  ends.
\<close>

record environment =
  probe :: "json \<Rightarrow> probe_event"
  net :: "nat \<Rightarrow> transfer \<Rightarrow> attempt_event"
  clock_end :: int

text \<open>
  What one run leaves behind: the states of the job object (as created, then after every
  assignment to one of its properties), the number of calls of \<^verbatim>\<open>getContentLength\<close>, the
  steps of the retry loop, whether the promise of \<^verbatim>\<open>runUpload\<close> settles at all, and whether
  it rejects.
\<close>

record run =
  states :: "job list"
  probes :: nat
  steps :: "relay_step list"
  settled :: bool
  rejected :: bool

text \<open>
  The \<^verbatim>\<open>catch\<close> block, entered with the job in state \<open>j\<close>. Reading \<^verbatim>\<open>err.message\<close> of
  \<^verbatim>\<open>undefined\<close> throws, which rejects the promise of \<^verbatim>\<open>runUpload\<close>.
\<close>

definition error_info_of :: "js_error \<Rightarrow> error_info" where
  "error_info_of err = \<lparr>err_message = message err, err_code = code err\<rparr>"

definition catch_block :: "int \<Rightarrow> job \<Rightarrow> js_error option \<Rightarrow> job list \<times> bool" where
  "catch_block now j thrown =
     (let j1 = j\<lparr>status := failed\<rparr>;
          j2 = j1\<lparr>completedAt := Some now\<rparr>
      in case thrown of
           None \<Rightarrow> ([j1, j2], True)
         | Some err \<Rightarrow> ([j1, j2, j2\<lparr>error := Some (error_info_of err)\<rparr>], False))"

text \<open>
  Lines 85 to 88: the length given in the request, or else the one the source reports.
  \<open>Inl\<close> is the error that \<^verbatim>\<open>await getContentLength(videoUrl)\<close> throws.
\<close>

definition resolveContentLength :: "builtins \<Rightarrow> environment \<Rightarrow> upload_request \<Rightarrow> js_error + json" where
  "resolveContentLength B env req =
     (if loosely_null (req_contentLength req)
      then (case getContentLength B (probe env (req_videoUrl req)) of
              Inl err \<Rightarrow> Inl err
            | Inr n \<Rightarrow> Inr (JNum n))
      else Inr (req_contentLength req))"

text \<open>The argument of \<^verbatim>\<open>streamVideoToYouTube\<close> in \<^verbatim>\<open>runUpload\<close>.\<close>

definition transfer_of :: "upload_request \<Rightarrow> json \<Rightarrow> transfer" where
  "transfer_of req resolvedContentLength =
     \<lparr>t_videoUrl = req_videoUrl req, t_uploadUrl = req_uploadUrl req,
      t_oauthToken = req_oauthToken req,
      t_contentType = with_default (req_contentType req) (JStr ''video/webm''),
      t_contentLength = resolvedContentLength\<rparr>"

definition runUpload :: "builtins \<Rightarrow> environment \<Rightarrow> upload_request \<Rightarrow> job \<Rightarrow> run" where
  "runUpload B env req job0 =
     (let j1 = job0\<lparr>status := downloading\<rparr>
      in case resolveContentLength B env req of
           Inl err \<Rightarrow>
             (let (js, rej) = catch_block (clock_end env) j1 (Some err)
              in \<lparr>states = job0 # j1 # js, probes = 1, steps = [], settled = True,
                  rejected = rej\<rparr>)
         | Inr resolvedContentLength \<Rightarrow>
             (let j2 = j1\<lparr>status := uploading\<rparr>;
                  (out, sts) =
                    streamVideoToYouTube B (net env) (transfer_of req resolvedContentLength);
                  np = (if loosely_null (req_contentLength req) then 1 else 0)
              in case out of
                   None \<Rightarrow>
                     \<lparr>states = [job0, j1, j2], probes = np, steps = sts, settled = False,
                      rejected = False\<rparr>
                 | Some (Inr res) \<Rightarrow>
                     (let j3 = j2\<lparr>status := completed\<rparr>;
                          j4 = j3\<lparr>completedAt := Some (clock_end env)\<rparr>;
                          j5 = j4\<lparr>result := Some res\<rparr>
                      in \<lparr>states = [job0, j1, j2, j3, j4, j5], probes = np, steps = sts,
                          settled = True, rejected = False\<rparr>)
                 | Some (Inl thrown) \<Rightarrow>
                     (let (js, rej) = catch_block (clock_end env) j2 thrown
                      in \<lparr>states = job0 # j1 # j2 # js, probes = np, steps = sts,
                          settled = True, rejected = rej\<rparr>)))"

section \<open>The eviction sweep\<close>

definition retention_cap :: nat where
  "retention_cap = 100"

text \<open>
  The callback of \<^verbatim>\<open>setInterval\<close>. \<^verbatim>\<open>Array.prototype.sort\<close> is stable, as is \<open>sort_key\<close>, and
  the comparator is the difference of the two creation instants.
\<close>

definition sweep :: "job_store \<Rightarrow> job_store" where
  "sweep jobs =
     (if length jobs > retention_cap then
        (let entries = sort_key (\<lambda>e. createdAt (snd e)) jobs;
             toDelete = take (length entries - retention_cap) entries
         in fold (\<lambda>e js. store_delete (fst e) js) toDelete jobs)
      else jobs)"

section \<open>What a run shows\<close>

text \<open>The relay attempts among the steps of the loop, in order: number and outcome.\<close>

fun attempts_of :: "relay_step list \<Rightarrow> (nat \<times> (js_error + upload_result) option) list" where
  "attempts_of [] = []"
| "attempts_of (Attempt k out # sts) = (k, out) # attempts_of sts"
| "attempts_of (Sleep d # sts) = attempts_of sts"

definition attempts :: "run \<Rightarrow> (nat \<times> (js_error + upload_result) option) list" where
  "attempts r = attempts_of (steps r)"

text \<open>The job object when the run is over, or as it stays when the run never ends.\<close>

definition final :: "run \<Rightarrow> job" where
  "final r = last (states r)"






section \<open>Sample inputs\<close>

text \<open>
  The two built-in functions on the strings of the examples below, where they agree with
  \<^verbatim>\<open>JSON.parse\<close> and \<^verbatim>\<open>parseInt\<close>: the first string is an object with the one property
  \<^verbatim>\<open>id\<close>, none of the others is JSON.
\<close>

definition sample_builtins :: builtins where
  \<open>sample_builtins =
     \<lparr>JSON_parse =
        (\<lambda>s. if s = ''{"id":"abc123"}'' then Some (JObj [(''id'', JStr ''abc123'')]) else None),
      parseInt10 = (\<lambda>s. if s = ''1000'' then Num 1000 else NaN)\<rparr>\<close>

definition sample_request :: upload_request where
  "sample_request =
     \<lparr>req_videoUrl = JStr ''https://cdn.example.com/video.webm'',
      req_uploadUrl = JStr ''https://upload.example.com/session/1'',
      req_oauthToken = JStr ''token'',
      req_videoMetadata = JUndefined,
      req_contentLength = JUndefined,
      req_contentType = JUndefined,
      req_sync = JUndefined\<rparr>"

definition sample_job :: job where
  "sample_job =
     \<lparr>job_id = ''job_1700000000000_4fzyo82'', status = pending, createdAt = 1700000000000,
      videoUrl = JStr ''https://cdn.example.com/video.webm'', videoMetadata = JNull,
      result = None, error = None, completedAt = None\<rparr>"

text \<open>A \<^verbatim>\<open>503\<close> from the destination, and a connection reset by it.\<close>

definition unavailable :: attempt_event where
  "unavailable = GetResponse 200 (PutResponse 503 ''Service Unavailable'')"

definition econnreset :: js_error where
  "econnreset =
     \<lparr>message = ''read ECONNRESET'', statusCode = None, code = Some ''ECONNRESET'', body = None\<rparr>"

definition created :: attempt_event where
  \<open>created = GetResponse 200 (PutResponse 201 ''{"id":"abc123"}'')\<close>

text \<open>
  Seven worlds: the source reports no length; the destination answers \<^verbatim>\<open>503\<close> three times;
  it fails twice and then accepts the upload; it answers \<^verbatim>\<open>200\<close>; it answers \<^verbatim>\<open>503\<close> and
  then \<^verbatim>\<open>200\<close>; it answers \<^verbatim>\<open>503\<close> and then the source answers \<^verbatim>\<open>503\<close>; the upload URL of
  the request is not a URL.
\<close>

definition env_no_length :: environment where
  "env_no_length =
     \<lparr>probe = (\<lambda>u. ProbeResponse None), net = (\<lambda>k t. created), clock_end = 1700000000500\<rparr>"

definition env_always_503 :: environment where
  "env_always_503 =
     \<lparr>probe = (\<lambda>u. ProbeResponse (Some ''1000'')), net = (\<lambda>k t. unavailable),
      clock_end = 1700000007000\<rparr>"

definition env_third_time :: environment where
  "env_third_time =
     \<lparr>probe = (\<lambda>u. ProbeResponse (Some ''1000'')),
      net = (\<lambda>k t. if k = 1 then unavailable
                    else if k = 2 then GetResponse 200 (PutError econnreset)
                    else created),
      clock_end = 1700000007000\<rparr>"

definition env_200 :: environment where
  "env_200 =
     \<lparr>probe = (\<lambda>u. ProbeResponse (Some ''1000'')),
      net = (\<lambda>k t. GetResponse 200 (PutResponse 200 ''ok'')),
      clock_end = 1700000001000\<rparr>"

definition env_503_then_200 :: environment where
  "env_503_then_200 =
     \<lparr>probe = (\<lambda>u. ProbeResponse (Some ''1000'')),
      net = (\<lambda>k t. if k = 1 then unavailable else GetResponse 200 (PutResponse 200 ''ok'')),
      clock_end = 1700000003000\<rparr>"

definition env_then_source_503 :: environment where
  "env_then_source_503 =
     \<lparr>probe = (\<lambda>u. ProbeResponse (Some ''1000'')),
      net = (\<lambda>k t. if k = 1 then unavailable else GetResponse 503 (PutResponse 201 [])),
      clock_end = 1700000003000\<rparr>"

definition bad_url_request :: upload_request where
  "bad_url_request = sample_request\<lparr>req_uploadUrl := JStr ''not a url''\<rparr>"

definition env_bad_url :: environment where
  "env_bad_url =
     \<lparr>probe = (\<lambda>u. ProbeResponse (Some ''1000'')),
      net = (\<lambda>k t. if t_uploadUrl t = JStr ''not a url'' then GetResponse 200 PutThrows
                    else created),
      clock_end = 1700000001000\<rparr>"

text \<open>The errors of the attempts in these worlds.\<close>

definition error_source_503 :: js_error where
  "error_source_503 =
     \<lparr>message = ''Failed to download video: HTTP 503'', statusCode = None, code = None,
      body = None\<rparr>"

definition error_503 :: js_error where
  "error_503 =
     \<lparr>message = ''YouTube upload failed: HTTP 503 - Service Unavailable'',
      statusCode = Some 503, code = None, body = Some ''Service Unavailable''\<rparr>"

definition error_200 :: js_error where
  "error_200 =
     \<lparr>message = ''YouTube upload failed: HTTP 200 - ok'',
      statusCode = Some 200, code = None, body = Some ''ok''\<rparr>"

text \<open>A second request, accepted in the same millisecond as the first.\<close>

definition other_request :: upload_request where
  "other_request = sample_request\<lparr>req_videoUrl := JStr ''https://cdn.example.com/other.webm''\<rparr>"

definition other_job :: job where
  "other_job = sample_job\<lparr>videoUrl := JStr ''https://cdn.example.com/other.webm''\<rparr>"

text \<open>A store of 101 jobs, created one millisecond apart.\<close>

definition numbered_job :: "nat \<Rightarrow> string \<times> job" where
  "numbered_job i =
     (''job_'' @ dec_nat i @ ''_4fzyo82'',
      sample_job\<lparr>job_id := ''job_'' @ dec_nat i @ ''_4fzyo82'', createdAt := int i\<rparr>)"

definition full_store :: job_store where
  "full_store = map numbered_job [0..<101]"

section \<open>The retry loop, unrolled\<close>

text \<open>Decimal digits of numerals, for the messages and ids of the examples.\<close>

lemma dec_nat_numeral [simp]:
  "dec_nat (numeral k) =
     (if (numeral k :: nat) < 10 then [digit_chars ! numeral k]
      else dec_nat (numeral k div 10) @ [digit_chars ! (numeral k mod 10)])"
  by (rule dec_nat.simps)

lemma dec_nat_0 [simp]: "dec_nat 0 = ''0''"
  by (simp add: dec_nat.simps digit_chars_def)

lemma dec_nat_Suc_0 [simp]: "dec_nat (Suc 0) = ''1''"
  by (simp add: dec_nat.simps [of "Suc 0"] digit_chars_def)

text \<open>With \<open>maxRetries = 3\<close> the loop has ten ways to end, or to go on for ever.\<close>

lemma retry_loop_3:
  "retry_loop B nw t 3 le =
     (case attemptStreamUpload B (nw 3 t) of
        None \<Rightarrow> (None, [Attempt 3 None])
      | Some (Inr r3) \<Rightarrow> (Some (Inr r3), [Attempt 3 (Some (Inr r3))])
      | Some (Inl e3) \<Rightarrow> (Some (Inl (Some e3)), [Attempt 3 (Some (Inl e3))]))"
  by (simp add: retry_loop.simps [of B nw t 3 le] maxRetries_def
      split: sum.splits option.splits)

lemma retry_loop_2:
  "retry_loop B nw t 2 le =
     (case attemptStreamUpload B (nw 2 t) of
        None \<Rightarrow> (None, [Attempt 2 None])
      | Some (Inr r2) \<Rightarrow> (Some (Inr r2), [Attempt 2 (Some (Inr r2))])
      | Some (Inl e2) \<Rightarrow>
          if \<not> isRetryable e2 then (Some (Inl (Some e2)), [Attempt 2 (Some (Inl e2))])
          else (let (out, sts) = retry_loop B nw t 3 (Some e2)
                in (out, Attempt 2 (Some (Inl e2)) # Sleep 4000 # sts)))"
  by (simp add: retry_loop.simps [of B nw t 2 le] maxRetries_def backoff_delay_def
      split: sum.splits option.splits)

lemma retry_loop_1:
  "retry_loop B nw t (Suc 0) le =
     (case attemptStreamUpload B (nw 1 t) of
        None \<Rightarrow> (None, [Attempt 1 None])
      | Some (Inr r1) \<Rightarrow> (Some (Inr r1), [Attempt 1 (Some (Inr r1))])
      | Some (Inl e1) \<Rightarrow>
          if \<not> isRetryable e1 then (Some (Inl (Some e1)), [Attempt 1 (Some (Inl e1))])
          else (let (out, sts) = retry_loop B nw t 2 (Some e1)
                in (out, Attempt 1 (Some (Inl e1)) # Sleep 2000 # sts)))"
  by (simp add: retry_loop.simps [of B nw t "Suc 0" le] maxRetries_def backoff_delay_def
      numeral_2_eq_2 split: sum.splits option.splits)

lemmas stream_unfold = streamVideoToYouTube_def retry_loop_1 retry_loop_2 retry_loop_3

lemma stream_shape:
  assumes "streamVideoToYouTube B nw t = (out, sts)"
  obtains
    (first_ok) r1 where "attemptStreamUpload B (nw 1 t) = Some (Inr r1)"
      "out = Some (Inr r1)" "sts = [Attempt 1 (Some (Inr r1))]"
  | (first_pending) "attemptStreamUpload B (nw 1 t) = None"
      "out = None" "sts = [Attempt 1 None]"
  | (first_fatal) e1 where "attemptStreamUpload B (nw 1 t) = Some (Inl e1)" "\<not> isRetryable e1"
      "out = Some (Inl (Some e1))" "sts = [Attempt 1 (Some (Inl e1))]"
  | (second_ok) e1 r2 where "attemptStreamUpload B (nw 1 t) = Some (Inl e1)" "isRetryable e1"
      "attemptStreamUpload B (nw 2 t) = Some (Inr r2)"
      "out = Some (Inr r2)"
      "sts = [Attempt 1 (Some (Inl e1)), Sleep 2000, Attempt 2 (Some (Inr r2))]"
  | (second_pending) e1 where "attemptStreamUpload B (nw 1 t) = Some (Inl e1)" "isRetryable e1"
      "attemptStreamUpload B (nw 2 t) = None"
      "out = None"
      "sts = [Attempt 1 (Some (Inl e1)), Sleep 2000, Attempt 2 None]"
  | (second_fatal) e1 e2 where "attemptStreamUpload B (nw 1 t) = Some (Inl e1)" "isRetryable e1"
      "attemptStreamUpload B (nw 2 t) = Some (Inl e2)" "\<not> isRetryable e2"
      "out = Some (Inl (Some e2))"
      "sts = [Attempt 1 (Some (Inl e1)), Sleep 2000, Attempt 2 (Some (Inl e2))]"
  | (third_ok) e1 e2 r3 where "attemptStreamUpload B (nw 1 t) = Some (Inl e1)" "isRetryable e1"
      "attemptStreamUpload B (nw 2 t) = Some (Inl e2)" "isRetryable e2"
      "attemptStreamUpload B (nw 3 t) = Some (Inr r3)"
      "out = Some (Inr r3)"
      "sts = [Attempt 1 (Some (Inl e1)), Sleep 2000, Attempt 2 (Some (Inl e2)), Sleep 4000,
              Attempt 3 (Some (Inr r3))]"
  | (third_pending) e1 e2 where "attemptStreamUpload B (nw 1 t) = Some (Inl e1)" "isRetryable e1"
      "attemptStreamUpload B (nw 2 t) = Some (Inl e2)" "isRetryable e2"
      "attemptStreamUpload B (nw 3 t) = None"
      "out = None"
      "sts = [Attempt 1 (Some (Inl e1)), Sleep 2000, Attempt 2 (Some (Inl e2)), Sleep 4000,
              Attempt 3 None]"
  | (third_failed) e1 e2 e3 where "attemptStreamUpload B (nw 1 t) = Some (Inl e1)" "isRetryable e1"
      "attemptStreamUpload B (nw 2 t) = Some (Inl e2)" "isRetryable e2"
      "attemptStreamUpload B (nw 3 t) = Some (Inl e3)"
      "out = Some (Inl (Some e3))"
      "sts = [Attempt 1 (Some (Inl e1)), Sleep 2000, Attempt 2 (Some (Inl e2)), Sleep 4000,
              Attempt 3 (Some (Inl e3))]"
proof -
  note u = stream_unfold
  show ?thesis
  proof (cases "attemptStreamUpload B (nw 1 t)")
    case None
    with assms show ?thesis by (intro first_pending) (simp_all add: u)
  next
    case a1: (Some o1)
    show ?thesis
    proof (cases o1)
      case (Inr r1)
      with assms a1 show ?thesis by (intro first_ok [of r1]) (simp_all add: u)
    next
      case (Inl e1)
      show ?thesis
      proof (cases "isRetryable e1")
        case False
        with assms a1 Inl show ?thesis by (intro first_fatal [of e1]) (simp_all add: u)
      next
        case r1: True
        show ?thesis
        proof (cases "attemptStreamUpload B (nw 2 t)")
          case None
          with assms a1 Inl r1 show ?thesis by (intro second_pending [of e1]) (simp_all add: u)
        next
          case a2: (Some o2)
          show ?thesis
          proof (cases o2)
            case (Inr r2)
            with assms a1 Inl r1 a2 show ?thesis
              by (intro second_ok [of e1 r2]) (simp_all add: u)
          next
            case e2: (Inl e2)
            show ?thesis
            proof (cases "isRetryable e2")
              case False
              with assms a1 Inl r1 a2 e2 show ?thesis
                by (intro second_fatal [of e1 e2]) (simp_all add: u)
            next
              case r2: True
              show ?thesis
              proof (cases "attemptStreamUpload B (nw 3 t)")
                case None
                with assms a1 Inl r1 a2 e2 r2 show ?thesis
                  by (intro third_pending [of e1 e2]) (simp_all add: u)
              next
                case a3: (Some o3)
                show ?thesis
                proof (cases o3)
                  case (Inr r3)
                  with assms a1 Inl r1 a2 e2 r2 a3 show ?thesis
                    by (intro third_ok [of e1 e2 r3]) (simp_all add: u)
                next
                  case e3: (Inl e3)
                  with assms a1 Inl r1 a2 e2 r2 a3 show ?thesis
                    by (intro third_failed [of e1 e2 e3]) (simp_all add: u)
                qed
              qed
            qed
          qed
        qed
      qed
    qed
  qed
qed

lemma stream_attempts_bound:
  assumes "streamVideoToYouTube B nw t = (out, sts)"
  shows "1 \<le> length (attempts_of sts) \<and> length (attempts_of sts) \<le> 3
     \<and> map fst (attempts_of sts) = [1..<Suc (length (attempts_of sts))]"
  using assms by (rule stream_shape) (simp_all add: upt_rec)

lemma stream_attempts_outcome:
  assumes "streamVideoToYouTube B nw t = (out, sts)"
  shows "\<forall>i<length (attempts_of sts). snd (attempts_of sts ! i) = attemptStreamUpload B (nw (Suc i) t)"
  using assms by (rule stream_shape) (simp_all add: less_Suc_eq numeral_2_eq_2 numeral_3_eq_3)

lemma stream_retry_only_retryable:
  assumes "streamVideoToYouTube B nw t = (out, sts)"
  shows "\<forall>i. Suc i < length (attempts_of sts) \<longrightarrow>
           (\<exists>e. snd (attempts_of sts ! i) = Some (Inl e) \<and> isRetryable e)"
  using assms by (rule stream_shape) (simp_all add: less_Suc_eq)

lemma stream_fatal_is_last:
  assumes "streamVideoToYouTube B nw t = (out, sts)"
  shows "\<forall>i e. i < length (attempts_of sts) \<and> snd (attempts_of sts ! i) = Some (Inl e)
            \<and> \<not> isRetryable e
            \<longrightarrow> length (attempts_of sts) = Suc i"
  using assms by (rule stream_shape) (auto simp add: less_Suc_eq)

lemma stream_out_is_last:
  assumes "streamVideoToYouTube B nw t = (out, sts)"
  shows "out = (case snd (last (attempts_of sts)) of
                  None \<Rightarrow> None
                | Some (Inl e) \<Rightarrow> Some (Inl (Some e))
                | Some (Inr res) \<Rightarrow> Some (Inr res))"
  using assms by (rule stream_shape) simp_all

section \<open>The four ways a run goes\<close>

lemma stream_throws_error:
  assumes "streamVideoToYouTube B nw t = (Some (Inl x), sts)"
  shows "\<exists>e. x = Some e \<and> snd (last (attempts_of sts)) = Some (Inl e)"
  using assms by (rule stream_shape) simp_all



lemma run_shape:
  obtains
    (unresolved) err where "resolveContentLength B env req = Inl err"
      "runUpload B env req job0 =
         \<lparr>states = [job0, job0\<lparr>status := downloading\<rparr>, job0\<lparr>status := failed\<rparr>,
                    job0\<lparr>status := failed, completedAt := Some (clock_end env)\<rparr>,
                    job0\<lparr>status := failed, completedAt := Some (clock_end env),
                         error := Some (error_info_of err)\<rparr>],
          probes = 1, steps = [], settled = True, rejected = False\<rparr>"
  | (completed) len res sts where "resolveContentLength B env req = Inr len"
      "streamVideoToYouTube B (net env) (transfer_of req len) = (Some (Inr res), sts)"
      "runUpload B env req job0 =
         \<lparr>states = [job0, job0\<lparr>status := downloading\<rparr>, job0\<lparr>status := uploading\<rparr>,
                    job0\<lparr>status := completed\<rparr>,
                    job0\<lparr>status := completed, completedAt := Some (clock_end env)\<rparr>,
                    job0\<lparr>status := completed, completedAt := Some (clock_end env),
                         result := Some res\<rparr>],
          probes = (if loosely_null (req_contentLength req) then 1 else 0), steps = sts,
          settled = True, rejected = False\<rparr>"
  | (failed) len e sts where "resolveContentLength B env req = Inr len"
      "streamVideoToYouTube B (net env) (transfer_of req len) = (Some (Inl (Some e)), sts)"
      "runUpload B env req job0 =
         \<lparr>states = [job0, job0\<lparr>status := downloading\<rparr>, job0\<lparr>status := uploading\<rparr>,
                    job0\<lparr>status := failed\<rparr>,
                    job0\<lparr>status := failed, completedAt := Some (clock_end env)\<rparr>,
                    job0\<lparr>status := failed, completedAt := Some (clock_end env),
                         error := Some (error_info_of e)\<rparr>],
          probes = (if loosely_null (req_contentLength req) then 1 else 0), steps = sts,
          settled = True, rejected = False\<rparr>"
  | (pending) len sts where "resolveContentLength B env req = Inr len"
      "streamVideoToYouTube B (net env) (transfer_of req len) = (None, sts)"
      "runUpload B env req job0 =
         \<lparr>states = [job0, job0\<lparr>status := downloading\<rparr>, job0\<lparr>status := uploading\<rparr>],
          probes = (if loosely_null (req_contentLength req) then 1 else 0), steps = sts,
          settled = False, rejected = False\<rparr>"
proof (cases "resolveContentLength B env req")
  case (Inl err)
  then show ?thesis
    by (intro unresolved [of err]) (simp_all add: runUpload_def catch_block_def Let_def)
next
  case (Inr len)
  obtain out sts where s: "streamVideoToYouTube B (net env) (transfer_of req len) = (out, sts)"
    by (cases "streamVideoToYouTube B (net env) (transfer_of req len)")
  show ?thesis
  proof (cases out)
    case None
    with s Inr show ?thesis
      by (intro pending [of len sts]) (simp_all add: runUpload_def Let_def)
  next
    case (Some o1)
    show ?thesis
    proof (cases o1)
      case (Inl x)
      with s Some obtain e where "x = Some e" using stream_throws_error by blast
      with s Some Inl Inr show ?thesis
        by (intro failed [of len e sts]) (simp_all add: runUpload_def catch_block_def Let_def)
    next
      case r: (Inr res)
      with s Some Inr show ?thesis
        by (intro completed [of len res sts]) (simp_all add: runUpload_def Let_def)
    qed
  qed
qed

lemma resolve_failure_needs_probe:
  "resolveContentLength B env req = Inl err \<Longrightarrow> loosely_null (req_contentLength req)"
  by (simp add: resolveContentLength_def split: if_splits)

lemma run_attempts_of_stream:
  assumes "resolveContentLength B env req = Inr len"
    and "streamVideoToYouTube B (net env) (transfer_of req len) = (out, sts)"
  shows "attempts (runUpload B env req job0) = attempts_of sts"
    and "steps (runUpload B env req job0) = sts"
  using assms
  by (auto simp: runUpload_def attempts_def Let_def catch_block_def
      split: sum.splits option.splits)

lemma run_unresolved_steps:
  assumes "resolveContentLength B env req = Inl err"
  shows "steps (runUpload B env req job0) = []"
    and "attempts (runUpload B env req job0) = []"
    and "probes (runUpload B env req job0) = 1"
    and "status (final (runUpload B env req job0)) = failed"
    and "error (final (runUpload B env req job0)) = Some (error_info_of err)"
    and "result (final (runUpload B env req job0)) = None \<longleftrightarrow> result job0 = None"
    and "map status (states (runUpload B env req job0)) =
           [status job0, downloading, failed, failed, failed]"
  using assms
  by (simp_all add: runUpload_def attempts_def Let_def catch_block_def final_def)

lemma run_final_of_stream:
  assumes "resolveContentLength B env req = Inr len"
    and "streamVideoToYouTube B (net env) (transfer_of req len) = (out, sts)"
    and "snd (last (attempts_of sts)) = Some (Inl e)"
  shows "status (final (runUpload B env req job0)) = failed
     \<and> error (final (runUpload B env req job0)) = Some (error_info_of e)"
proof -
  have "out = Some (Inl (Some e))"
    using stream_out_is_last [OF assms(2)] assms(3) by simp
  with assms(1,2) show ?thesis
    by (simp add: runUpload_def Let_def catch_block_def final_def)
qed

text \<open>What the attempts of a run are, and what the failure of the last one leaves.\<close>

lemma run_attempt_outcome:
  assumes "resolveContentLength B env req = Inr len"
    and "i < length (attempts (runUpload B env req job0))"
  shows "snd (attempts (runUpload B env req job0) ! i) =
           attemptStreamUpload B (net env (Suc i) (transfer_of req len))"
proof -
  obtain out sts where s: "streamVideoToYouTube B (net env) (transfer_of req len) = (out, sts)"
    by (cases "streamVideoToYouTube B (net env) (transfer_of req len)")
  show ?thesis
    using stream_attempts_outcome [OF s] run_attempts_of_stream(1) [OF assms(1) s, of job0] assms(2)
    by simp
qed

lemma run_last_failure:
  assumes "length (attempts (runUpload B env req job0)) = Suc i"
    and "snd (attempts (runUpload B env req job0) ! i) = Some (Inl e)"
  shows "status (final (runUpload B env req job0)) = failed
     \<and> error (final (runUpload B env req job0)) = Some (error_info_of e)"
proof (cases "resolveContentLength B env req")
  case (Inl err)
  with assms(1) show ?thesis
    using run_unresolved_steps(2) [OF Inl, of job0] by simp
next
  case (Inr len)
  obtain out sts where s: "streamVideoToYouTube B (net env) (transfer_of req len) = (out, sts)"
    by (cases "streamVideoToYouTube B (net env) (transfer_of req len)")
  have a: "attempts (runUpload B env req job0) = attempts_of sts"
    by (rule run_attempts_of_stream(1) [OF Inr s])
  have "attempts_of sts \<noteq> []"
    using assms(1) a by auto
  then have "last (attempts_of sts) = attempts_of sts ! i"
    using assms(1) a by (simp add: last_conv_nth)
  then have "snd (last (attempts_of sts)) = Some (Inl e)"
    using assms(2) a by simp
  from run_final_of_stream [OF Inr s this] show ?thesis .
qed

lemma run_fatal_attempt:
  assumes "i < length (attempts (runUpload B env req job0))"
    and "snd (attempts (runUpload B env req job0) ! i) = Some (Inl e)"
    and "\<not> isRetryable e"
  shows "length (attempts (runUpload B env req job0)) = Suc i"
proof (cases "resolveContentLength B env req")
  case (Inl err)
  with assms(1) show ?thesis
    using run_unresolved_steps(2) [OF Inl, of job0] by simp
next
  case (Inr len)
  obtain out sts where s: "streamVideoToYouTube B (net env) (transfer_of req len) = (out, sts)"
    by (cases "streamVideoToYouTube B (net env) (transfer_of req len)")
  have a: "attempts (runUpload B env req job0) = attempts_of sts"
    by (rule run_attempts_of_stream(1) [OF Inr s])
  show ?thesis
    using stream_fatal_is_last [OF s] assms unfolding a by blast
qed

section \<open>The sample worlds, evaluated\<close>

lemma dec_200: "dec_int 200 = ''200''"
  by (simp add: dec_int_def digit_chars_def)

lemma dec_503: "dec_int 503 = ''503''"
  by (simp add: dec_int_def digit_chars_def)

lemma sample_created:
  \<open>attemptStreamUpload sample_builtins created =
     Some (Inr \<lparr>res_statusCode = 201, videoId = JStr ''abc123'',
                rawResponse = Some ''{"id":"abc123"}''\<rparr>)\<close>
  by (simp add: created_def attemptStreamUpload_def on_put_end_def parse_videoId_def
      sample_builtins_def js_or_def)

lemma sample_attempts:
  "attemptStreamUpload B unavailable = Some (Inl error_503)"
  "attemptStreamUpload B (GetResponse 200 (PutResponse 200 ''ok'')) = Some (Inl error_200)"
  "attemptStreamUpload B (GetResponse 200 (PutError econnreset)) = Some (Inl econnreset)"
  "attemptStreamUpload B (GetResponse 503 (PutResponse 201 [])) = Some (Inl error_source_503)"
  "attemptStreamUpload B (GetResponse 200 PutThrows) = None"
  by (simp_all add: unavailable_def attemptStreamUpload_def on_put_end_def new_Error_def
      dec_int_def digit_chars_def error_503_def error_200_def error_source_503_def)

lemma sample_retryable:
  "isRetryable error_503" "\<not> isRetryable error_200" "isRetryable econnreset"
  "\<not> isRetryable error_source_503"
  by (simp_all add: isRetryable_def error_503_def error_200_def econnreset_def
      error_source_503_def)

lemma sample_resolved:
  "resolveContentLength sample_builtins env_200 sample_request = Inr (JNum (Num 1000))"
  "resolveContentLength sample_builtins env_always_503 sample_request = Inr (JNum (Num 1000))"
  "resolveContentLength sample_builtins env_third_time sample_request = Inr (JNum (Num 1000))"
  "resolveContentLength sample_builtins env_503_then_200 sample_request = Inr (JNum (Num 1000))"
  "resolveContentLength sample_builtins env_bad_url bad_url_request = Inr (JNum (Num 1000))"
  by (simp_all add: resolveContentLength_def getContentLength_def sample_request_def
      bad_url_request_def loosely_null_def env_200_def env_always_503_def env_third_time_def
      env_503_then_200_def env_bad_url_def sample_builtins_def)

lemma stream_always_503:
  "streamVideoToYouTube sample_builtins (net env_always_503) t =
     (Some (Inl (Some error_503)),
      [Attempt 1 (Some (Inl error_503)), Sleep 2000, Attempt 2 (Some (Inl error_503)),
       Sleep 4000, Attempt 3 (Some (Inl error_503))])"
  by (simp add: stream_unfold env_always_503_def sample_attempts sample_retryable)

lemma stream_200:
  "streamVideoToYouTube sample_builtins (net env_200) t =
     (Some (Inl (Some error_200)), [Attempt 1 (Some (Inl error_200))])"
  by (simp add: stream_unfold env_200_def sample_attempts sample_retryable)

lemma stream_503_then_200:
  "streamVideoToYouTube sample_builtins (net env_503_then_200) t =
     (Some (Inl (Some error_200)),
      [Attempt 1 (Some (Inl error_503)), Sleep 2000, Attempt 2 (Some (Inl error_200))])"
  by (simp add: stream_unfold env_503_then_200_def sample_attempts sample_retryable)

lemma stream_then_source_503:
  "streamVideoToYouTube sample_builtins (net env_then_source_503) t =
     (Some (Inl (Some error_source_503)),
      [Attempt 1 (Some (Inl error_503)), Sleep 2000, Attempt 2 (Some (Inl error_source_503))])"
  by (simp add: stream_unfold env_then_source_503_def sample_attempts sample_retryable)

lemma stream_third_time:
  \<open>streamVideoToYouTube sample_builtins (net env_third_time) t =
     (Some (Inr \<lparr>res_statusCode = 201, videoId = JStr ''abc123'',
                 rawResponse = Some ''{"id":"abc123"}''\<rparr>),
      [Attempt 1 (Some (Inl error_503)), Sleep 2000, Attempt 2 (Some (Inl econnreset)),
       Sleep 4000,
       Attempt 3 (Some (Inr \<lparr>res_statusCode = 201, videoId = JStr ''abc123'',
                              rawResponse = Some ''{"id":"abc123"}''\<rparr>))])\<close>
  by (simp add: stream_unfold env_third_time_def sample_attempts sample_retryable sample_created)


section \<open>Single attempts\<close>

lemma attempt_success_iff:
  "attemptStreamUpload B ev = Some (Inr r) \<longleftrightarrow>
     (\<exists>gst b. ev = GetResponse gst (PutResponse 201 b) \<and> gst < 400 \<and>
        r = \<lparr>res_statusCode = 201, videoId = parse_videoId B b,
             rawResponse = (if b = [] then None else Some b)\<rparr>)"
  by (cases ev) (auto simp: attemptStreamUpload_def on_put_end_def split: put_event.splits)

text \<open>
  C10. A response of the source with a status of 400 or more makes the attempt reject with
  \<^verbatim>\<open>new Error(`Failed to download video: HTTP ${status}`)\<close>, an error with no \<^verbatim>\<open>statusCode\<close>
  (and no \<^verbatim>\<open>code\<close>). The classification of the loop reads it as not retryable. So whichever
  attempt of the loop meets such a response, the first, the second or the third, that attempt
  is the last one and the loop throws its error, whatever the status is, 5xx included.
\<close>

theorem source_error_never_retried:
  assumes "400 \<le> gst"
  shows "attemptStreamUpload B (GetResponse gst pe) =
           Some (Inl (new_Error (''Failed to download video: HTTP '' @ dec_int gst)))
     \<and> statusCode (new_Error (''Failed to download video: HTTP '' @ dec_int gst)) = None
     \<and> code (new_Error (''Failed to download video: HTTP '' @ dec_int gst)) = None
     \<and> \<not> isRetryable (new_Error (''Failed to download video: HTTP '' @ dec_int gst))
     \<and> (\<forall>i. streamVideoToYouTube B nw t = (out, sts) \<and> i < length (attempts_of sts)
              \<and> nw (Suc i) t = GetResponse gst pe \<longrightarrow>
            snd (attempts_of sts ! i) =
              Some (Inl (new_Error (''Failed to download video: HTTP '' @ dec_int gst)))
            \<and> length (attempts_of sts) = Suc i
            \<and> out = Some (Inl (Some (new_Error (''Failed to download video: HTTP '' @ dec_int gst)))))"
proof -
  let ?e = "new_Error (''Failed to download video: HTTP '' @ dec_int gst)"
  have a: "attemptStreamUpload B (GetResponse gst pe) = Some (Inl ?e)"
    using assms by (simp add: attemptStreamUpload_def)
  have n: "\<not> isRetryable ?e"
    by (simp add: isRetryable_def new_Error_def)
  have l: "snd (attempts_of sts ! i) = Some (Inl ?e) \<and> length (attempts_of sts) = Suc i
      \<and> out = Some (Inl (Some ?e))"
    if s: "streamVideoToYouTube B nw t = (out, sts)" and i: "i < length (attempts_of sts)"
      and ev: "nw (Suc i) t = GetResponse gst pe" for i
  proof -
    have o: "snd (attempts_of sts ! i) = Some (Inl ?e)"
      using stream_attempts_outcome [OF s] i ev a by simp
    have len: "length (attempts_of sts) = Suc i"
      using stream_fatal_is_last [OF s] i o n by blast
    then have "last (attempts_of sts) = attempts_of sts ! i"
      by (cases "attempts_of sts" rule: rev_cases) (simp_all add: nth_append)
    then have "out = Some (Inl (Some ?e))"
      using stream_out_is_last [OF s] o by simp
    with o len show ?thesis by simp
  qed
  have c: "statusCode ?e = None \<and> code ?e = None"
    by (simp add: new_Error_def)
  from a c n l show ?thesis by blast
qed

theorem source_error_never_retried_witness:
  "(400::int) \<le> 503
   \<and> streamVideoToYouTube sample_builtins (net env_then_source_503)
        (transfer_of sample_request JNull) =
       (Some (Inl (Some \<lparr>message = ''Failed to download video: HTTP 503'', statusCode = None,
                         code = None, body = None\<rparr>)),
        [Attempt 1 (Some (Inl error_503)), Sleep 2000,
         Attempt 2 (Some (Inl \<lparr>message = ''Failed to download video: HTTP 503'',
                               statusCode = None, code = None, body = None\<rparr>))])
   \<and> net env_then_source_503 2 (transfer_of sample_request JNull) =
       GetResponse 503 (PutResponse 201 [])"
proof -
  let ?t = "transfer_of sample_request JNull"
  let ?sts = "[Attempt 1 (Some (Inl error_503)), Sleep 2000,
      Attempt 2 (Some (Inl error_source_503))]"
  have h: "(400::int) \<le> 503" by simp
  have s: "streamVideoToYouTube sample_builtins (net env_then_source_503) ?t =
      (Some (Inl (Some error_source_503)), ?sts)"
    by (rule stream_then_source_503)
  have i: "Suc 0 < length (attempts_of ?sts)" by simp
  have ev: "net env_then_source_503 (Suc (Suc 0)) ?t = GetResponse 503 (PutResponse 201 [])"
    by (simp add: env_then_source_503_def)
  from source_error_never_retried [OF h, of sample_builtins "PutResponse 201 []"
      "net env_then_source_503" ?t "Some (Inl (Some error_source_503))" ?sts] s i ev
  have "length (attempts_of ?sts) = Suc (Suc 0)
      \<and> Some (Inl (Some error_source_503)) =
          Some (Inl (Some (new_Error (''Failed to download video: HTTP '' @ dec_int 503))))"
    by blast
  then have "error_source_503 =
      \<lparr>message = ''Failed to download video: HTTP 503'', statusCode = None, code = None,
       body = None\<rparr>"
    by (simp add: new_Error_def dec_503)
  with h s ev show ?thesis
    by (simp add: numeral_2_eq_2)
qed

text \<open>
  C9. An attempt resolves only when the destination answers 201 (and the source answered
  below 400). Any other status of the success range makes it reject with an error whose
  \<^verbatim>\<open>statusCode\<close> is that status; the error is not retryable. So whichever attempt of a run
  meets such a response, the first, the second or the third, that attempt is the last one of
  the run, and the job ends \<open>failed\<close> with that error's message.
\<close>

theorem only_201_is_success:
  "(attemptStreamUpload B ev = Some (Inr res) \<longrightarrow>
      (\<exists>gst b. ev = GetResponse gst (PutResponse 201 b) \<and> gst < 400))
   \<and> (gst < 400 \<and> 200 \<le> st \<and> st < 300 \<and> st \<noteq> 201 \<longrightarrow>
        attemptStreamUpload B (GetResponse gst (PutResponse st b)) =
          Some (Inl \<lparr>message = ''YouTube upload failed: HTTP '' @ dec_int st @ '' - '' @ b,
                     statusCode = Some st, code = None, body = Some b\<rparr>)
        \<and> \<not> isRetryable \<lparr>message = ''YouTube upload failed: HTTP '' @ dec_int st @ '' - '' @ b,
               statusCode = Some st, code = None, body = Some b\<rparr>
        \<and> (\<forall>i. resolveContentLength B env req = Inr len
                 \<and> i < length (attempts (runUpload B env req job0))
                 \<and> net env (Suc i) (transfer_of req len) = GetResponse gst (PutResponse st b) \<longrightarrow>
               snd (attempts (runUpload B env req job0) ! i) =
                 Some (Inl \<lparr>message = ''YouTube upload failed: HTTP '' @ dec_int st @ '' - '' @ b,
                            statusCode = Some st, code = None, body = Some b\<rparr>)
               \<and> length (attempts (runUpload B env req job0)) = Suc i
               \<and> status (final (runUpload B env req job0)) = failed
               \<and> error (final (runUpload B env req job0)) =
                   Some \<lparr>err_message = ''YouTube upload failed: HTTP '' @ dec_int st @ '' - '' @ b,
                         err_code = None\<rparr>))"
proof -
  let ?e = "\<lparr>message = ''YouTube upload failed: HTTP '' @ dec_int st @ '' - '' @ b,
               statusCode = Some st, code = None, body = Some b\<rparr>"
  let ?r = "runUpload B env req job0"
  have s: "attemptStreamUpload B ev = Some (Inr res) \<longrightarrow>
      (\<exists>gst b. ev = GetResponse gst (PutResponse 201 b) \<and> gst < 400)"
    using attempt_success_iff [of B ev res] by blast
  have a: "attemptStreamUpload B (GetResponse gst (PutResponse st b)) = Some (Inl ?e)"
    if "gst < 400" "200 \<le> st" "st < 300" "st \<noteq> 201"
    using that by (simp add: attemptStreamUpload_def on_put_end_def new_Error_def)
  have n: "\<not> isRetryable ?e" if "st < 300"
    using that by (simp add: isRetryable_def)
  have r: "snd (attempts ?r ! i) = Some (Inl ?e) \<and> length (attempts ?r) = Suc i
      \<and> status (final ?r) = failed
      \<and> error (final ?r) =
          Some \<lparr>err_message = ''YouTube upload failed: HTTP '' @ dec_int st @ '' - '' @ b,
                err_code = None\<rparr>"
    if c: "gst < 400" "200 \<le> st" "st < 300" "st \<noteq> 201"
      and res: "resolveContentLength B env req = Inr len"
      and i: "i < length (attempts ?r)"
      and ev: "net env (Suc i) (transfer_of req len) = GetResponse gst (PutResponse st b)" for i
  proof -
    have o: "snd (attempts ?r ! i) = Some (Inl ?e)"
      using run_attempt_outcome [OF res i] ev a [OF c] by simp
    have len: "length (attempts ?r) = Suc i"
      using run_fatal_attempt [OF i o] n [OF c(3)] by simp
    from o len run_last_failure [OF len o] show ?thesis
      by (simp add: error_info_of_def)
  qed
  from s a n r show ?thesis by blast
qed

theorem only_201_is_success_witness:
  \<open>attemptStreamUpload sample_builtins created =
      Some (Inr \<lparr>res_statusCode = 201, videoId = JStr ''abc123'',
                 rawResponse = Some ''{"id":"abc123"}''\<rparr>)
   \<and> (200::int) < 400 \<and> (200::int) \<le> 200 \<and> (200::int) < 300 \<and> (200::int) \<noteq> 201
   \<and> resolveContentLength sample_builtins env_503_then_200 sample_request = Inr (JNum (Num 1000))
   \<and> net env_503_then_200 2 (transfer_of sample_request (JNum (Num 1000))) =
        GetResponse 200 (PutResponse 200 ''ok'')
   \<and> attempts (runUpload sample_builtins env_503_then_200 sample_request sample_job) =
        [(1, Some (Inl error_503)),
         (2, Some (Inl \<lparr>message = ''YouTube upload failed: HTTP 200 - ok'', statusCode = Some 200,
                        code = None, body = Some ''ok''\<rparr>))]
   \<and> status (final (runUpload sample_builtins env_503_then_200 sample_request sample_job)) = failed
   \<and> error (final (runUpload sample_builtins env_503_then_200 sample_request sample_job)) =
        Some \<lparr>err_message = ''YouTube upload failed: HTTP 200 - ok'', err_code = None\<rparr>\<close>
proof -
  let ?r = "runUpload sample_builtins env_503_then_200 sample_request sample_job"
  let ?t = "transfer_of sample_request (JNum (Num 1000))"
  have c: "(200::int) < 400 \<and> (200::int) \<le> 200 \<and> (200::int) < 300 \<and> (200::int) \<noteq> 201"
    by simp
  have n: "net env_503_then_200 (Suc (Suc 0)) ?t = GetResponse 200 (PutResponse 200 ''ok'')"
    by (simp add: env_503_then_200_def)
  have a: "attempts ?r = [(1, Some (Inl error_503)), (2, Some (Inl error_200))]"
    using run_attempts_of_stream(1) [OF sample_resolved(4) stream_503_then_200] by simp
  then have i: "Suc 0 < length (attempts ?r)" by simp
  from only_201_is_success [where B = sample_builtins and gst = 200 and st = 200
      and b = "''ok''" and env = env_503_then_200 and req = sample_request
      and len = "JNum (Num 1000)" and ?job0.0 = sample_job] c sample_resolved(4) i n
  have f: "status (final ?r) = failed
      \<and> error (final ?r) =
          Some \<lparr>err_message = ''YouTube upload failed: HTTP '' @ dec_int 200 @ '' - '' @ ''ok'',
                err_code = None\<rparr>"
    by blast
  from c sample_created sample_resolved(4) n a f show ?thesis
    by (simp add: dec_200 error_200_def numeral_2_eq_2)
qed




section \<open>Retries and backoff\<close>

text \<open>
  C1. A run makes at most three relay attempts, numbered from 1. An attempt is followed by
  another one only if it failed with an error that \<open>isRetryable\<close> accepts: a \<^verbatim>\<open>statusCode\<close> of
  500 or more or of 308, or a \<^verbatim>\<open>code\<close> of \<^verbatim>\<open>ECONNRESET\<close> or \<^verbatim>\<open>ETIMEDOUT\<close>. An attempt that
  fails with any other error is the last one, and a third attempt that fails is the last one;
  in both cases the job ends \<open>failed\<close> and its \<^verbatim>\<open>error\<close> is made of the message and code of
  that last attempt's error.
\<close>

theorem retry_policy:
  assumes "r = runUpload B env req job0"
  shows "length (attempts r) \<le> 3
     \<and> map fst (attempts r) = [1..<Suc (length (attempts r))]
     \<and> (\<forall>len. resolveContentLength B env req = Inr len \<longrightarrow>
           (\<forall>i<length (attempts r).
              snd (attempts r ! i) = attemptStreamUpload B (net env (Suc i) (transfer_of req len))))
     \<and> (\<forall>i. Suc i < length (attempts r) \<longrightarrow>
           (\<exists>e. snd (attempts r ! i) = Some (Inl e) \<and> isRetryable e))
     \<and> (\<forall>e. isRetryable e \<longleftrightarrow>
           (\<exists>s. statusCode e = Some s \<and> (500 \<le> s \<or> s = 308))
           \<or> code e = Some ''ECONNRESET'' \<or> code e = Some ''ETIMEDOUT'')
     \<and> (\<forall>i e. i < length (attempts r) \<and> snd (attempts r ! i) = Some (Inl e) \<and> \<not> isRetryable e \<longrightarrow>
           length (attempts r) = Suc i \<and> status (final r) = failed
           \<and> error (final r) = Some \<lparr>err_message = message e, err_code = code e\<rparr>)
     \<and> (\<forall>e. length (attempts r) = 3 \<and> snd (attempts r ! 2) = Some (Inl e) \<longrightarrow>
           status (final r) = failed
           \<and> error (final r) = Some \<lparr>err_message = message e, err_code = code e\<rparr>)"
proof (cases "resolveContentLength B env req")
  case (Inl err)
  have "attempts r = []"
    using run_unresolved_steps(2) [OF Inl] assms by simp
  moreover have "\<forall>e. isRetryable e \<longleftrightarrow>
           (\<exists>s. statusCode e = Some s \<and> (500 \<le> s \<or> s = 308))
           \<or> code e = Some ''ECONNRESET'' \<or> code e = Some ''ETIMEDOUT''"
    by (auto simp: isRetryable_def split: option.splits)
  ultimately show ?thesis using Inl by auto
next
  case (Inr len)
  obtain out sts where s: "streamVideoToYouTube B (net env) (transfer_of req len) = (out, sts)"
    by (cases "streamVideoToYouTube B (net env) (transfer_of req len)")
  have a: "attempts r = attempts_of sts"
    using run_attempts_of_stream(1) [OF Inr s] assms by simp
  have c1: "length (attempts r) \<le> 3 \<and> map fst (attempts r) = [1..<Suc (length (attempts r))]"
    using stream_attempts_bound [OF s] a by simp
  have c2: "\<forall>i<length (attempts r).
      snd (attempts r ! i) = attemptStreamUpload B (net env (Suc i) (transfer_of req len))"
    using stream_attempts_outcome [OF s] a by simp
  have c3: "\<forall>i. Suc i < length (attempts r) \<longrightarrow>
      (\<exists>e. snd (attempts r ! i) = Some (Inl e) \<and> isRetryable e)"
    using stream_retry_only_retryable [OF s] a by simp
  have c4: "\<forall>e. isRetryable e \<longleftrightarrow>
           (\<exists>s. statusCode e = Some s \<and> (500 \<le> s \<or> s = 308))
           \<or> code e = Some ''ECONNRESET'' \<or> code e = Some ''ETIMEDOUT''"
    by (auto simp: isRetryable_def split: option.splits)
  have last_fails: "status (final r) = failed
      \<and> error (final r) = Some \<lparr>err_message = message e, err_code = code e\<rparr>"
    if "length (attempts r) = Suc i" "snd (attempts r ! i) = Some (Inl e)" for i e
  proof -
    have "attempts r \<noteq> []" using that(1) by auto
    then have "last (attempts r) = attempts r ! i"
      using that(1) by (simp add: last_conv_nth)
    then have "snd (last (attempts_of sts)) = Some (Inl e)"
      using that(2) a by simp
    from run_final_of_stream [OF Inr s this] assms show ?thesis
      by (simp add: error_info_of_def)
  qed
  have c5: "\<forall>i e. i < length (attempts r) \<and> snd (attempts r ! i) = Some (Inl e) \<and> \<not> isRetryable e \<longrightarrow>
           length (attempts r) = Suc i \<and> status (final r) = failed
           \<and> error (final r) = Some \<lparr>err_message = message e, err_code = code e\<rparr>"
    using stream_fatal_is_last [OF s] a last_fails by metis
  have c6: "\<forall>e. length (attempts r) = 3 \<and> snd (attempts r ! 2) = Some (Inl e) \<longrightarrow>
           status (final r) = failed
           \<and> error (final r) = Some \<lparr>err_message = message e, err_code = code e\<rparr>"
    using last_fails [of 2] by (simp add: numeral_3_eq_3)
  have c2': "\<forall>len. resolveContentLength B env req = Inr len \<longrightarrow>
           (\<forall>i<length (attempts r).
              snd (attempts r ! i) = attemptStreamUpload B (net env (Suc i) (transfer_of req len)))"
    using Inr c2 by simp
  from c1 c2' c3 c4 c5 c6 show ?thesis by blast
qed


theorem retry_policy_witness:
  "attempts (runUpload sample_builtins env_always_503 sample_request sample_job) =
     [(1, Some (Inl error_503)), (2, Some (Inl error_503)), (3, Some (Inl error_503))]
   \<and> isRetryable error_503
   \<and> status (final (runUpload sample_builtins env_always_503 sample_request sample_job)) = failed
   \<and> error (final (runUpload sample_builtins env_always_503 sample_request sample_job)) =
       Some \<lparr>err_message = ''YouTube upload failed: HTTP 503 - Service Unavailable'',
             err_code = None\<rparr>
   \<and> attempts (runUpload sample_builtins env_200 sample_request sample_job) = [(1, Some (Inl error_200))]
   \<and> \<not> isRetryable error_200
   \<and> status (final (runUpload sample_builtins env_200 sample_request sample_job)) = failed
   \<and> error (final (runUpload sample_builtins env_200 sample_request sample_job)) =
       Some \<lparr>err_message = ''YouTube upload failed: HTTP 200 - ok'', err_code = None\<rparr>"
proof -
  let ?r = "runUpload sample_builtins env_always_503 sample_request sample_job"
  let ?q = "runUpload sample_builtins env_200 sample_request sample_job"
  have a: "attempts ?r = [(1, Some (Inl error_503)), (2, Some (Inl error_503)), (3, Some (Inl error_503))]"
    using run_attempts_of_stream(1) [OF sample_resolved(2) stream_always_503] by simp
  have b: "attempts ?q = [(1, Some (Inl error_200))]"
    using run_attempts_of_stream(1) [OF sample_resolved(1) stream_200] by simp
  have h: "length (attempts ?r) = 3 \<and> snd (attempts ?r ! 2) = Some (Inl error_503)"
    by (simp add: a)
  have k: "0 < length (attempts ?q) \<and> snd (attempts ?q ! 0) = Some (Inl error_200) \<and> \<not> isRetryable error_200"
    by (simp add: b sample_retryable)
  from retry_policy [OF refl, of sample_builtins env_always_503 sample_request sample_job] h
  have c: "status (final ?r) = failed
      \<and> error (final ?r) = Some \<lparr>err_message = message error_503, err_code = code error_503\<rparr>"
    by blast
  from retry_policy [OF refl, of sample_builtins env_200 sample_request sample_job] k
  have d: "status (final ?q) = failed
      \<and> error (final ?q) = Some \<lparr>err_message = message error_200, err_code = code error_200\<rparr>"
    by blast
  from a b c d sample_retryable show ?thesis
    by (simp add: error_503_def error_200_def)
qed

text \<open>
  C7. Among the steps of the loop, every sleep comes right after an attempt that failed with a
  retryable error and right before the next attempt, and it lasts
  \<^verbatim>\<open>min(1000 * 2^attempt, 10000)\<close> milliseconds, \<open>attempt\<close> being the number of the failed
  attempt; every attempt but the first comes right after such a sleep. The first step is the
  first attempt: nothing sleeps before it.
\<close>

theorem backoff_between_retries:
  assumes "streamVideoToYouTube B nw t = (out, sts)"
  shows "(\<exists>o1 rest. sts = Attempt 1 o1 # rest)
     \<and> (\<forall>i d. i < length sts \<and> sts ! i = Sleep d \<longrightarrow>
           (\<exists>k e o2. 0 < i \<and> sts ! (i - 1) = Attempt k (Some (Inl e)) \<and> isRetryable e
              \<and> d = min (1000 * 2 ^ k) 10000
              \<and> Suc i < length sts \<and> sts ! Suc i = Attempt (Suc k) o2))
     \<and> (\<forall>i k o2. i < length sts \<and> sts ! i = Attempt k o2 \<and> 1 < k \<longrightarrow>
           0 < i \<and> sts ! (i - 1) = Sleep (min (1000 * 2 ^ (k - 1)) 10000))"
  using assms
  by (rule stream_shape) (auto simp: less_Suc_eq nth_Cons')

theorem backoff_between_retries_witness:
  "streamVideoToYouTube sample_builtins (net env_always_503) (transfer_of sample_request JNull) =
     (Some (Inl (Some error_503)),
      [Attempt 1 (Some (Inl error_503)), Sleep 2000, Attempt 2 (Some (Inl error_503)),
       Sleep 4000, Attempt 3 (Some (Inl error_503))])
   \<and> (2000::int) = min (1000 * 2 ^ 1) 10000 \<and> (4000::int) = min (1000 * 2 ^ 2) 10000"
proof -
  let ?sts = "[Attempt 1 (Some (Inl error_503)), Sleep 2000, Attempt 2 (Some (Inl error_503)),
       Sleep 4000, Attempt 3 (Some (Inl error_503))]"
  have s: "streamVideoToYouTube sample_builtins (net env_always_503) (transfer_of sample_request JNull) =
     (Some (Inl (Some error_503)), ?sts)"
    by (rule stream_always_503)
  have "\<forall>i k o2. i < length ?sts \<and> ?sts ! i = Attempt k o2 \<and> 1 < k \<longrightarrow>
           0 < i \<and> ?sts ! (i - 1) = Sleep (min (1000 * 2 ^ (k - 1)) 10000)"
    using backoff_between_retries [OF s] by blast
  from this [rule_format, of 2 2 "Some (Inl error_503)"]
    this [rule_format, of 4 3 "Some (Inl error_503)"]
  have "(2000::int) = min (1000 * 2 ^ 1) 10000 \<and> (4000::int) = min (1000 * 2 ^ 2) 10000"
    by simp
  with s show ?thesis by blast
qed

section \<open>The life of a job\<close>

lemma accept_upload_job:
  assumes "accept_upload now rnd36 created_at req jobs = Some (job0, jobs')"
  shows "job_id job0 = jobId now rnd36" and "status job0 = pending"
    and "result job0 = None" and "error job0 = None"
    and "jobs' = store_set (jobId now rnd36) job0 jobs"
  using assms by (auto simp: accept_upload_def Let_def split: if_splits)

lemma no_length_unresolved:
  assumes "loosely_null (req_contentLength req)"
    and "probe env (req_videoUrl req) = ProbeResponse None"
  shows "resolveContentLength B env req = Inl (new_Error size_unavailable)"
  using assms by (simp add: resolveContentLength_def getContentLength_def)

lemma run_probes_le_1: "probes (runUpload B env req job0) \<le> 1"
  by (rule run_shape [of B env req job0]) simp_all

text \<open>
  C4. When the request gives no \<^verbatim>\<open>contentLength\<close> and the response to the \<^verbatim>\<open>HEAD\<close> request has
  no \<^verbatim>\<open>content-length\<close> header, the job ends \<open>failed\<close> with the message that the source does
  not provide the length, and the loop of relay attempts is never entered: no attempt, no
  sleep, and the status never is \<open>uploading\<close>. Whatever error the resolution of the length
  ends with, \<^verbatim>\<open>getContentLength\<close> is called once and no more.
\<close>

theorem no_length_no_transfer:
  assumes "r = runUpload B env req job0"
  shows "(loosely_null (req_contentLength req) \<and> probe env (req_videoUrl req) = ProbeResponse None \<longrightarrow>
            status (final r) = failed
            \<and> error (final r) = Some \<lparr>err_message = size_unavailable, err_code = None\<rparr>
            \<and> steps r = [] \<and> attempts r = [] \<and> probes r = 1
            \<and> map status (states r) = [status job0, downloading, failed, failed, failed])
     \<and> (\<forall>err. resolveContentLength B env req = Inl err \<longrightarrow>
            status (final r) = failed \<and> error (final r) = Some (error_info_of err)
            \<and> steps r = [] \<and> attempts r = [] \<and> probes r = 1)
     \<and> probes r \<le> 1"
proof -
  have a: "status (final r) = failed \<and> error (final r) = Some (error_info_of err)
      \<and> steps r = [] \<and> attempts r = [] \<and> probes r = 1
      \<and> map status (states r) = [status job0, downloading, failed, failed, failed]"
    if "resolveContentLength B env req = Inl err" for err
    using run_unresolved_steps [OF that, of job0] assms by simp
  have b: "status (final r) = failed
      \<and> error (final r) = Some \<lparr>err_message = size_unavailable, err_code = None\<rparr>
      \<and> steps r = [] \<and> attempts r = [] \<and> probes r = 1
      \<and> map status (states r) = [status job0, downloading, failed, failed, failed]"
    if "loosely_null (req_contentLength req)" "probe env (req_videoUrl req) = ProbeResponse None"
    using a [OF no_length_unresolved [OF that]]
    by (simp add: error_info_of_def new_Error_def)
  have c: "probes r \<le> 1"
    using run_probes_le_1 assms by simp
  from a b c show ?thesis by blast
qed

theorem no_length_no_transfer_witness:
  "loosely_null (req_contentLength sample_request)
   \<and> probe env_no_length (req_videoUrl sample_request) = ProbeResponse None
   \<and> status (final (runUpload sample_builtins env_no_length sample_request sample_job)) = failed
   \<and> error (final (runUpload sample_builtins env_no_length sample_request sample_job)) =
       Some \<lparr>err_message =
               ''Source URL does not provide Content-Length. Pass contentLength in the request body.'',
             err_code = None\<rparr>
   \<and> steps (runUpload sample_builtins env_no_length sample_request sample_job) = []
   \<and> probes (runUpload sample_builtins env_no_length sample_request sample_job) = 1
   \<and> map status (states (runUpload sample_builtins env_no_length sample_request sample_job)) =
       [pending, downloading, failed, failed, failed]"
proof -
  have h: "loosely_null (req_contentLength sample_request)"
    "probe env_no_length (req_videoUrl sample_request) = ProbeResponse None"
    by (simp_all add: loosely_null_def sample_request_def env_no_length_def)
  from no_length_no_transfer [OF refl, of sample_request env_no_length sample_builtins sample_job] h
  show ?thesis
    by (simp add: size_unavailable_def sample_job_def)
qed




lemma accept_sample:
  "accept_upload 1700000000000 ''0.4fzyo82mvyr'' 1700000000000 sample_request [] =
     Some (sample_job, [(''job_1700000000000_4fzyo82'', sample_job)])"
  by (simp add: accept_upload_def sample_request_def sample_job_def jobId_def dec_int_def
      slice_def digit_chars_def js_or_def Let_def)



lemma run_third_time_states:
  "map status (states (runUpload sample_builtins env_third_time sample_request sample_job)) =
     [pending, downloading, uploading, completed, completed, completed]"
  "attempts (runUpload sample_builtins env_third_time sample_request sample_job) \<noteq> []"
  using sample_resolved(3) stream_third_time [of "transfer_of sample_request (JNum (Num 1000))"]
  by (simp_all add: runUpload_def Let_def sample_job_def attempts_def)






section \<open>Job ids are read back uniquely\<close>

lemma digit_nth_inj:
  assumes "a < 10" "b < 10" "digit_chars ! a = digit_chars ! b"
  shows "a = b"
proof -
  have "distinct digit_chars" "length digit_chars = 10"
    by (simp_all add: digit_chars_def)
  with assms show ?thesis
    by (simp add: nth_eq_iff_index_eq)
qed

lemma digit_nth_in:
  assumes "a < 10"
  shows "digit_chars ! a \<in> set digit_chars"
proof -
  have "a < length digit_chars"
    using assms by (simp add: digit_chars_def)
  then show ?thesis by (rule nth_mem)
qed

lemma dec_nat_not_Nil: "dec_nat n \<noteq> []" "[] \<noteq> dec_nat n"
  by (subst dec_nat.simps, simp)+

lemma set_dec_nat: "set (dec_nat n) \<subseteq> set digit_chars"
proof (induction n rule: dec_nat.induct)
  case (1 n)
  show ?case
  proof (cases "n < 10")
    case True
    then show ?thesis
      by (subst dec_nat.simps) (simp add: digit_nth_in)
  next
    case False
    with "1.IH" show ?thesis
      by (subst dec_nat.simps) (simp add: digit_nth_in)
  qed
qed

lemma dec_nat_inj: "dec_nat m = dec_nat n \<Longrightarrow> m = n"
proof (induction m arbitrary: n rule: dec_nat.induct)
  case (1 m)
  show ?case
  proof (cases "m < 10")
    case m: True
    show ?thesis
    proof (cases "n < 10")
      case True
      with m "1.prems" show ?thesis
        by (simp add: dec_nat.simps [of m] dec_nat.simps [of n] digit_nth_inj)
    next
      case False
      with m "1.prems" show ?thesis
        by (simp add: dec_nat.simps [of m] dec_nat.simps [of n] dec_nat_not_Nil)
    qed
  next
    case m: False
    show ?thesis
    proof (cases "n < 10")
      case True
      with m "1.prems" show ?thesis
        by (simp add: dec_nat.simps [of m] dec_nat.simps [of n] dec_nat_not_Nil)
    next
      case False
      with m "1.prems" have "dec_nat (m div 10) = dec_nat (n div 10)"
        and "digit_chars ! (m mod 10) = digit_chars ! (n mod 10)"
        by (simp_all add: dec_nat.simps [of m] dec_nat.simps [of n])
      then have "m div 10 = n div 10" and "m mod 10 = n mod 10"
        using "1.IH" [OF m] by (simp_all add: digit_nth_inj)
      then show ?thesis
        by (metis div_mult_mod_eq)
    qed
  qed
qed

lemma dec_int_inj: "dec_int i = dec_int j \<Longrightarrow> i = j"
proof -
  have no_minus: "hd (dec_nat n) \<noteq> CHR ''-''" for n
  proof -
    have "hd (dec_nat n) \<in> set (dec_nat n)"
      by (simp add: dec_nat_not_Nil)
    then have "hd (dec_nat n) \<in> set digit_chars"
      using set_dec_nat by blast
    then show ?thesis
      by (auto simp: digit_chars_def)
  qed
  have diff: "CHR ''-'' # dec_nat a \<noteq> dec_nat b" for a b
    using no_minus [of b] by (metis list.sel(1))
  assume "dec_int i = dec_int j"
  then show ?thesis
    using diff dec_nat_inj
    by (auto simp: dec_int_def split: if_splits dest!: dec_nat_inj) (metis diff)+
qed

lemma underscore_not_in_dec_int: "CHR ''_'' \<notin> set (dec_int i)"
  using set_dec_nat [of "nat i"] set_dec_nat [of "nat (- i)"]
  by (auto simp: dec_int_def digit_chars_def)

lemma takeWhile_stops:
  "a \<notin> set xs \<Longrightarrow> takeWhile (\<lambda>c. c \<noteq> a) (xs @ a # ys) = xs"
  by (induction xs) auto

lemma split_at_first:
  assumes "xs @ a # ys = xs' @ a # ys'" "a \<notin> set xs" "a \<notin> set xs'"
  shows "xs = xs' \<and> ys = ys'"
proof -
  have "takeWhile (\<lambda>c. c \<noteq> a) (xs @ a # ys) = xs"
    using assms(2) by (rule takeWhile_stops)
  moreover have "takeWhile (\<lambda>c. c \<noteq> a) (xs' @ a # ys') = xs'"
    using assms(3) by (rule takeWhile_stops)
  ultimately have "xs = xs'" using assms(1) by simp
  with assms(1) show ?thesis by simp
qed

lemma jobId_eq_iff:
  "jobId n1 r1 = jobId n2 r2 \<longleftrightarrow> n1 = n2 \<and> slice 2 9 r1 = slice 2 9 r2"
proof
  assume "jobId n1 r1 = jobId n2 r2"
  then have "dec_int n1 @ CHR ''_'' # slice 2 9 r1 = dec_int n2 @ CHR ''_'' # slice 2 9 r2"
    by (simp add: jobId_def)
  then have "dec_int n1 = dec_int n2 \<and> slice 2 9 r1 = slice 2 9 r2"
    by (rule split_at_first) (rule underscore_not_in_dec_int)+
  then show "n1 = n2 \<and> slice 2 9 r1 = slice 2 9 r2"
    by (simp add: dec_int_inj)
next
  assume "n1 = n2 \<and> slice 2 9 r1 = slice 2 9 r2"
  then show "jobId n1 r1 = jobId n2 r2"
    by (simp add: jobId_def)
qed

section \<open>The job store\<close>

lemma fold_store_delete:
  "fold (\<lambda>e js. store_delete (fst e) js) ds js = filter (\<lambda>e. fst e \<notin> fst ` set ds) js"
proof (induction ds arbitrary: js)
  case Nil
  show ?case by simp
next
  case (Cons d ds)
  have "fold (\<lambda>e js. store_delete (fst e) js) (d # ds) js =
      filter (\<lambda>e. fst e \<notin> fst ` set ds) (store_delete (fst d) js)"
    by (simp add: Cons.IH)
  then show ?case
    by (simp add: store_delete_def conj_commute)
qed

text \<open>The keys of the store stay distinct, as those of a \<^verbatim>\<open>Map\<close> are.\<close>

lemma keys_store_set:
  "map fst (store_set k v es) = (if k \<in> fst ` set es then map fst es else map fst es @ [k])"
  by (induction es) force+

lemma distinct_store_set:
  "distinct (map fst es) \<Longrightarrow> distinct (map fst (store_set k v es))"
  by (simp add: keys_store_set)

lemma sweep_small: "length jobs \<le> retention_cap \<Longrightarrow> sweep jobs = jobs"
  by (simp add: sweep_def)

lemma sweep_large:
  assumes "distinct (map fst jobs)" and "retention_cap < length jobs"
  defines "es \<equiv> sort_key (\<lambda>e. createdAt (snd e)) jobs"
  defines "k \<equiv> length jobs - retention_cap"
  shows "sweep jobs = filter (\<lambda>e. e \<notin> set (take k es)) jobs"
    and "set (sweep jobs) = set (drop k es)"
    and "set jobs - set (sweep jobs) = set (take k es)"
    and "length (sweep jobs) = retention_cap"
proof -
  have dj: "distinct jobs"
    using assms(1) by (simp add: distinct_map)
  have inj: "inj_on fst (set jobs)"
    using assms(1) by (simp add: distinct_map)
  have ses: "set es = set jobs" and des: "distinct es" and les: "length es = length jobs"
    using dj by (simp_all add: es_def)
  have sub: "set (take k es) \<subseteq> set jobs"
    using ses set_take_subset [of k es] by simp
  have "sweep jobs = filter (\<lambda>e. fst e \<notin> fst ` set (take k es)) jobs"
    using assms(2) by (simp add: sweep_def fold_store_delete es_def k_def Let_def)
  also have "\<dots> = filter (\<lambda>e. e \<notin> set (take k es)) jobs"
  proof (rule filter_cong [OF refl])
    fix e assume "e \<in> set jobs"
    then show "(fst e \<notin> fst ` set (take k es)) = (e \<notin> set (take k es))"
      using inj sub by (auto dest: inj_onD)
  qed
  finally show 1: "sweep jobs = filter (\<lambda>e. e \<notin> set (take k es)) jobs" .
  have split: "set (take k es) \<union> set (drop k es) = set jobs"
    "set (take k es) \<inter> set (drop k es) = {}"
    using ses des set_append [of "take k es" "drop k es"]
      distinct_append [of "take k es" "drop k es"] by simp_all
  show 2: "set (sweep jobs) = set (drop k es)"
    using 1 split by auto
  show "set jobs - set (sweep jobs) = set (take k es)"
    using 2 split by auto
  have "distinct (sweep jobs)"
    using 1 dj by simp
  then have "length (sweep jobs) = card (set (drop k es))"
    using 2 distinct_card [of "sweep jobs"] by simp
  also have "\<dots> = length (drop k es)"
    using des by (simp add: distinct_card)
  also have "\<dots> = retention_cap"
    using assms(2) les by (simp add: k_def)
  finally show "length (sweep jobs) = retention_cap" .
qed

lemma sorted_take_le_drop:
  assumes "sorted (map f es)" "x \<in> set (take k es)" "y \<in> set (drop k es)"
  shows "f x \<le> f y"
proof -
  have "sorted (map f (take k es) @ map f (drop k es))"
    using assms(1) by (simp flip: map_append)
  then show ?thesis
    using assms(2,3) by (auto simp: sorted_append)
qed

text \<open>
  C6. A sweep leaves a store of at most 100 jobs as it is. From a larger store it removes
  jobs until exactly 100 remain, in the order they had; every job it removes was created no
  later than every job it keeps, so no job strictly newer than a retained one is evicted.
\<close>

theorem sweep_evicts_oldest:
  assumes "distinct (map fst jobs)"
  shows "(length jobs \<le> 100 \<longrightarrow> sweep jobs = jobs)
     \<and> (100 < length jobs \<longrightarrow>
          length (sweep jobs) = 100
          \<and> sweep jobs = filter (\<lambda>e. e \<in> set (sweep jobs)) jobs
          \<and> (\<forall>e \<in> set jobs - set (sweep jobs). \<forall>k \<in> set (sweep jobs).
                createdAt (snd e) \<le> createdAt (snd k)))"
proof -
  let ?f = "\<lambda>e. createdAt (snd e)"
  let ?es = "sort_key ?f jobs"
  let ?k = "length jobs - retention_cap"
  have small: "sweep jobs = jobs" if "length jobs \<le> 100"
    using that by (simp add: sweep_small retention_cap_def)
  have large: "length (sweep jobs) = 100
      \<and> sweep jobs = filter (\<lambda>e. e \<in> set (sweep jobs)) jobs
      \<and> (\<forall>e \<in> set jobs - set (sweep jobs). \<forall>k \<in> set (sweep jobs). ?f e \<le> ?f k)"
    if "100 < length jobs"
  proof -
    have c: "retention_cap < length jobs"
      using that by (simp add: retention_cap_def)
    note s = sweep_large [OF assms c]
    have "sweep jobs = filter (\<lambda>e. e \<in> set (sweep jobs)) jobs"
    proof -
      have "filter (\<lambda>e. e \<notin> set (take ?k ?es)) jobs = filter (\<lambda>e. e \<in> set (sweep jobs)) jobs"
        using s(3) by (intro filter_cong [OF refl]) auto
      with s(1) show ?thesis by simp
    qed
    moreover have "\<forall>e \<in> set jobs - set (sweep jobs). \<forall>k \<in> set (sweep jobs). ?f e \<le> ?f k"
      using sorted_take_le_drop [of ?f ?es _ ?k] s(2,3) by simp
    ultimately show ?thesis
      using s(4) by (simp add: retention_cap_def)
  qed
  from small large show ?thesis by blast
qed


lemma distinct_full_store: "distinct (map fst full_store)"
proof -
  have "inj_on (\<lambda>i. fst (numbered_job i)) (set [0..<101])"
    by (rule inj_onI) (simp add: numbered_job_def dec_nat_inj)
  then show ?thesis
    by (simp add: full_store_def distinct_map comp_def)
qed

theorem sweep_evicts_oldest_witness:
  "distinct (map fst full_store) \<and> 100 < length full_store
   \<and> length (sweep full_store) = 100
   \<and> numbered_job 0 \<notin> set (sweep full_store)"
proof -
  let ?kept = "set (sweep full_store)"
  have h: "100 < length full_store"
    by (simp add: full_store_def)
  from sweep_evicts_oldest [OF distinct_full_store] h
  have len: "length (sweep full_store) = 100"
    and sub: "sweep full_store = filter (\<lambda>e. e \<in> ?kept) full_store"
    and old: "\<forall>e \<in> set full_store - ?kept. \<forall>k \<in> ?kept. createdAt (snd e) \<le> createdAt (snd k)"
    by blast+
  have "card ?kept \<le> 100"
    using card_length [of "sweep full_store"] len by simp
  moreover have "card (set full_store) = 101"
  proof -
    have "distinct full_store"
      using distinct_full_store by (simp add: distinct_map)
    then have "card (set full_store) = length full_store"
      by (rule distinct_card)
    then show ?thesis by (simp add: full_store_def)
  qed
  ultimately have "\<not> set full_store \<subseteq> ?kept"
    using card_mono [of ?kept "set full_store"] by auto
  then have "set full_store - ?kept \<noteq> {}"
    by auto
  then obtain e where e: "e \<in> set full_store" "e \<notin> ?kept"
    by auto
  then obtain i where i: "e = numbered_job i"
    by (auto simp: full_store_def)
  have "numbered_job 0 \<notin> ?kept"
  proof
    assume k: "numbered_job 0 \<in> ?kept"
    with old e have "createdAt (snd e) \<le> createdAt (snd (numbered_job 0))"
      by blast
    then have "i = 0"
      by (simp add: i numbered_job_def)
    with i k e(2) show False by simp
  qed
  with distinct_full_store h len show ?thesis by blast
qed

subsection \<open>Ids in the store\<close>

lemma accept_other:
  "accept_upload 1700000000000 ''0.4fzyo82xk1q'' 1700000000000 other_request
     [(''job_1700000000000_4fzyo82'', sample_job)] =
     Some (other_job, [(''job_1700000000000_4fzyo82'', other_job)])"
  by (simp add: accept_upload_def other_request_def other_job_def sample_request_def
      sample_job_def jobId_def dec_int_def slice_def digit_chars_def js_or_def Let_def)

lemma accept_later:
  "accept_upload 1700000000001 ''0.4fzyo82mvyr'' 1700000000001 sample_request
     [(''job_1700000000000_4fzyo82'', sample_job)] =
     Some (sample_job\<lparr>job_id := ''job_1700000000001_4fzyo82'', createdAt := 1700000000001\<rparr>,
           [(''job_1700000000000_4fzyo82'', sample_job),
            (''job_1700000000001_4fzyo82'',
             sample_job\<lparr>job_id := ''job_1700000000001_4fzyo82'', createdAt := 1700000000001\<rparr>)])"
  by (simp add: accept_upload_def sample_request_def
      sample_job_def jobId_def dec_int_def slice_def digit_chars_def js_or_def Let_def)

lemma run_keeps_job_id: "\<forall>j \<in> set (states (runUpload B env req job0)). job_id j = job_id job0"
  by (rule run_shape [of B env req job0]) simp_all

text \<open>
  C8, as stated, makes the ids of any two jobs differ. The id is made of the clock reading in
  milliseconds and of seven characters of a random draw: two requests accepted in the same
  millisecond whose draws agree in those characters get the same id, and the second job
  takes the place of the first in the store.
\<close>

theorem job_id_collision:
  "accept_upload 1700000000000 ''0.4fzyo82mvyr'' 1700000000000 sample_request [] =
     Some (sample_job, [(''job_1700000000000_4fzyo82'', sample_job)])
   \<and> accept_upload 1700000000000 ''0.4fzyo82xk1q'' 1700000000000 other_request
       [(''job_1700000000000_4fzyo82'', sample_job)] =
     Some (other_job, [(''job_1700000000000_4fzyo82'', other_job)])
   \<and> sample_job \<noteq> other_job
   \<and> job_id sample_job = job_id other_job"
proof -
  have "sample_job \<noteq> other_job" "job_id sample_job = job_id other_job"
    by (simp_all add: sample_job_def other_job_def)
  with accept_sample accept_other show ?thesis by blast
qed

text \<open>
  C8, amended. The ids of two jobs are equal exactly when the two requests were accepted at
  the same reading of \<^verbatim>\<open>Date.now()\<close> and their random draws agree in the characters 2 to 8
  of their base-36 form; jobs accepted at different clock readings, or with draws that differ
  there, have distinct ids. No state of a job has an id other than the one it was created
  with.
\<close>

theorem job_id_unique_up_to_draw:
  assumes "accept_upload now1 rnd1 c1 req1 jobs1 = Some (job1, jobs1')"
    and "accept_upload now2 rnd2 c2 req2 jobs2 = Some (job2, jobs2')"
  shows "(job_id job1 = job_id job2 \<longleftrightarrow> now1 = now2 \<and> slice 2 9 rnd1 = slice 2 9 rnd2)
     \<and> (\<forall>j \<in> set (states (runUpload B env req1 job1)). job_id j = job_id job1)"
  using accept_upload_job(1) [OF assms(1)] accept_upload_job(1) [OF assms(2)]
    run_keeps_job_id [of B env req1 job1]
  by (simp add: jobId_eq_iff)

theorem job_id_unique_up_to_draw_witness:
  "accept_upload 1700000000000 ''0.4fzyo82mvyr'' 1700000000000 sample_request [] =
     Some (sample_job, [(''job_1700000000000_4fzyo82'', sample_job)])
   \<and> accept_upload 1700000000001 ''0.4fzyo82mvyr'' 1700000000001 sample_request
       [(''job_1700000000000_4fzyo82'', sample_job)] =
     Some (sample_job\<lparr>job_id := ''job_1700000000001_4fzyo82'', createdAt := 1700000000001\<rparr>,
           [(''job_1700000000000_4fzyo82'', sample_job),
            (''job_1700000000001_4fzyo82'',
             sample_job\<lparr>job_id := ''job_1700000000001_4fzyo82'', createdAt := 1700000000001\<rparr>)])
   \<and> job_id sample_job \<noteq>
       job_id (sample_job\<lparr>job_id := ''job_1700000000001_4fzyo82'', createdAt := 1700000000001\<rparr>)
   \<and> map job_id (states (runUpload sample_builtins env_third_time sample_request sample_job)) =
       replicate 6 ''job_1700000000000_4fzyo82''"
proof -
  let ?sts = "states (runUpload sample_builtins env_third_time sample_request sample_job)"
  from job_id_unique_up_to_draw [OF accept_sample accept_later, of sample_builtins env_third_time]
  have d: "job_id sample_job \<noteq>
       job_id (sample_job\<lparr>job_id := ''job_1700000000001_4fzyo82'', createdAt := 1700000000001\<rparr>)"
    and k: "\<forall>j \<in> set ?sts. job_id j = job_id sample_job"
    by simp_all
  have "length ?sts = 6"
    using arg_cong [OF run_third_time_states(1), of length] by simp
  moreover have "map job_id ?sts = map (\<lambda>j. job_id sample_job) ?sts"
    using k by (intro map_cong [OF refl]) simp
  ultimately have "map job_id ?sts = replicate 6 ''job_1700000000000_4fzyo82''"
    by (simp add: map_replicate_const sample_job_def)
  with accept_sample accept_later d show ?thesis by blast
qed

end
